theory Spec2Isabelle
  imports Main "HOL-Library.Word"
begin

section \<open>Data model\<close>

text \<open>
  The service of \<^verbatim>\<open>main.py\<close> validates a product with a pydantic model and keeps the
  validated products in a module-level dictionary. Strings are lists of \<^typ>\<open>char\<close>, each
  character read as one code point in the range U+0000..U+00FF, so that \<^const>\<open>length\<close>
  is Python's \<^verbatim>\<open>len\<close>.

  A Python \<^verbatim>\<open>Decimal\<close> is a sign, a coefficient and an exponent (the value is
  \<open>\<plusminus> coefficient * 10 ^ exponent\<close>), or one of the special values.
\<close>

datatype decimal =
    Dec bool nat int  \<comment> \<open>sign (True is negative), coefficient, exponent\<close>
  | DecInf bool
  | DecNaN

type_synonym uuid = "128 word"

text \<open>The untrusted field values of a request body, or of \<^verbatim>\<open>model_dump()\<close>.\<close>

record campos =
  c_nombre :: string
  c_precio :: decimal
  c_categorias :: "string list"

record ProductoIn =
  nombre :: string
  precio :: decimal
  categorias :: "string list"

record ProductoOut = ProductoIn +
  id_out :: uuid

text \<open>
  Validation errors. The first group are the errors pydantic raises for the constraints
  written in \<^verbatim>\<open>Field(...)\<close>; the second group are the \<^verbatim>\<open>ValueError\<close>s raised by the
  validators of \<^verbatim>\<open>ProductoIn\<close>; \<open>InvalidOperation\<close> is the exception of
  \<^verbatim>\<open>Decimal.quantize\<close>.
\<close>

datatype error =
    StringTooShort | StringTooLong
  | FiniteNumber | DecimalMaxDigits | DecimalMaxPlaces | DecimalWholeDigits | GreaterThan
  | TooShort | TooLong
  | NombreVacio
  | SinCategoriaValida
  | CategoriasRepetidas
  | CategoriasNoPermitidas "string list"
  | InvalidOperation

datatype http_error =
    HTTP_404
  | HTTP_422 "error list"
  | HTTP_500 "error list"

definition CATALOGO_CATEGORIAS :: "string set" where
  "CATALOGO_CATEGORIAS =
     {''granos'', ''frutas'', ''hortalizas'', ''lacteos'', ''carnes'',
      ''procesados'', ''organicos'', ''ofertas'', ''semillas'', ''bebidas''}"

section \<open>Strings\<close>

text \<open>
  \<^verbatim>\<open>str.isspace\<close>, \<^verbatim>\<open>str.strip()\<close> and \<^verbatim>\<open>str.lower()\<close> on the code points below 256:
  the white space there is U+0009..U+000D, U+001C..U+0020, U+0085 and U+00A0; the letters
  with a lower-case form are A..Z and U+00C0..U+00DE without the multiplication sign U+00D7.
\<close>

definition isspace :: "char \<Rightarrow> bool" where
  "isspace c =
     (let n = (of_char c :: nat)
      in (9 \<le> n \<and> n \<le> 13) \<or> (28 \<le> n \<and> n \<le> 32) \<or> n = 133 \<or> n = 160)"

definition strip :: "string \<Rightarrow> string" where
  "strip s = rev (dropWhile isspace (rev (dropWhile isspace s)))"

definition lower_char :: "char \<Rightarrow> char" where
  "lower_char c =
     (let n = (of_char c :: nat)
      in if (65 \<le> n \<and> n \<le> 90) \<or> (192 \<le> n \<and> n \<le> 222 \<and> n \<noteq> 215)
         then char_of (n + 32) else c)"

definition lower :: "string \<Rightarrow> string" where
  "lower s = map lower_char s"

section \<open>Decimals\<close>

text \<open>The number of digits of a coefficient; the coefficient 0 has the one digit 0.\<close>

fun ndigits :: "nat \<Rightarrow> nat" where
  "ndigits n = (if n < 10 then 1 else Suc (ndigits (n div 10)))"

declare ndigits.simps [simp del]

text \<open>
  \<^verbatim>\<open>Decimal.normalize()\<close> removes the trailing zeros of the coefficient, and turns a zero
  into the coefficient 0 with exponent 0. Python rounds a coefficient of more than 28
  digits to the precision of the decimal context before that; the function here works on
  the exact value, which is what Python does for every coefficient of at most 28 digits.
\<close>

fun strip_zeros :: "nat \<Rightarrow> int \<Rightarrow> nat \<times> int" where
  "strip_zeros c e =
     (if c \<noteq> 0 \<and> c mod 10 = 0 then strip_zeros (c div 10) (e + 1) else (c, e))"

declare strip_zeros.simps [simp del]

definition normalize :: "nat \<Rightarrow> int \<Rightarrow> nat \<times> int" where
  "normalize c e = (if c = 0 then (0, 0) else strip_zeros c e)"

text \<open>
  The digit counts pydantic takes from the normalised value: the number of decimal places
  and the total number of digits. A positive exponent adds that many trailing zeros; with
  a negative exponent the digits after the point count even where they are leading zeros.
\<close>

definition digits_info :: "nat \<Rightarrow> int \<Rightarrow> nat \<times> nat" where
  "digits_info c e =
     (if 0 \<le> e then (0, ndigits c + nat e)
      else (nat (- e), max (ndigits c) (nat (- e))))"

text \<open>
  \<^verbatim>\<open>v.quantize(Decimal("0.01"), rounding=ROUND_HALF_UP)\<close>: the result has exponent \<open>-2\<close>.
  A coefficient with a larger exponent is padded with zeros; one with a smaller exponent
  loses its last \<open>k\<close> digits and is rounded to nearest, a tie going away from zero. The
  operation raises \<open>InvalidOperation\<close> for an infinity, and when the new coefficient has
  more digits than the context's precision of 28.
\<close>

definition quantize_half_up :: "decimal \<Rightarrow> error + decimal" where
  "quantize_half_up v =
     (case v of
        DecNaN \<Rightarrow> Inr DecNaN
      | DecInf s \<Rightarrow> Inl InvalidOperation
      | Dec s c e \<Rightarrow>
          (let c' = (if - 2 \<le> e then c * 10 ^ nat (e + 2)
                     else (let k = nat (- 2 - e)
                           in c div 10 ^ k + (if 10 ^ k \<le> 2 * (c mod 10 ^ k) then 1 else 0)))
           in if 28 < ndigits c' then Inl InvalidOperation else Inr (Dec s c' (- 2))))"

section \<open>The validator: ProductoIn\<close>

subsection \<open>The constraints of the field declarations\<close>

text \<open>
  \<^verbatim>\<open>nombre: str = Field(..., min_length=3, max_length=60, strip_whitespace=True)\<close>.
  pydantic's \<^verbatim>\<open>Field\<close> has no parameter \<^verbatim>\<open>strip_whitespace\<close> (stripping is a parameter of
  \<^verbatim>\<open>StringConstraints\<close> and of the model configuration): the keyword lands in the extra
  JSON-schema data of the field and does not touch the value. The two length bounds are
  checked on the string as it was sent.
\<close>

definition field_nombre :: "string \<Rightarrow> error + string" where
  "field_nombre v =
     (if length v < 3 then Inl StringTooShort
      else if 60 < length v then Inl StringTooLong
      else Inr v)"

text \<open>
  \<^verbatim>\<open>precio: Decimal = Field(..., gt=0, max_digits=10, decimal_places=2)\<close>. The value must
  be finite; of its normalised form, the number of digits is at most \<^verbatim>\<open>max_digits\<close>, the
  number of decimal places at most \<^verbatim>\<open>decimal_places\<close>, and the number of digits before
  the point at most their difference; then the value must be greater than 0. The value
  handed on is the decimal as it was sent, not the normalised one.
\<close>

definition field_precio :: "decimal \<Rightarrow> error + decimal" where
  "field_precio v =
     (case v of
        DecNaN \<Rightarrow> Inl FiniteNumber
      | DecInf s \<Rightarrow> Inl FiniteNumber
      | Dec s c e \<Rightarrow>
          (case normalize c e of (c0, e0) \<Rightarrow>
           (case digits_info c0 e0 of (decimals, digits) \<Rightarrow>
              if 10 < digits then Inl DecimalMaxDigits
              else if 2 < decimals then Inl DecimalMaxPlaces
              else if 10 - 2 < digits - decimals then Inl DecimalWholeDigits
              else if s \<or> c = 0 then Inl GreaterThan
              else Inr v)))"

text \<open>\<^verbatim>\<open>categorias: List[str] = Field(..., min_length=1, max_length=10)\<close>.\<close>

definition field_categorias :: "string list \<Rightarrow> error + string list" where
  "field_categorias v =
     (if length v < 1 then Inl TooShort
      else if 10 < length v then Inl TooLong
      else Inr v)"

subsection \<open>The field validators\<close>

definition validar_nombre :: "string \<Rightarrow> error + string" where
  "validar_nombre v = (if strip v = [] then Inl NombreVacio else Inr v)"

definition normalizar_precio :: "decimal \<Rightarrow> error + decimal" where
  "normalizar_precio v = quantize_half_up v"

text \<open>
  The two list comprehensions of \<^verbatim>\<open>validar_categorias\<close>: the entries that are not blank,
  stripped and lower-cased, and of those the ones outside the catalogue.
\<close>

definition normalizadas :: "string list \<Rightarrow> string list" where
  "normalizadas v = map (\<lambda>c. lower (strip c)) (filter (\<lambda>c. c \<noteq> [] \<and> strip c \<noteq> []) v)"

definition desconocidas :: "string list \<Rightarrow> string list" where
  "desconocidas ns = filter (\<lambda>c. c \<notin> CATALOGO_CATEGORIAS) ns"

definition validar_categorias :: "string list \<Rightarrow> error + string list" where
  "validar_categorias v =
     (if normalizadas v = [] then Inl SinCategoriaValida
      else if length (normalizadas v) \<noteq> card (set (normalizadas v)) then Inl CategoriasRepetidas
      else if desconocidas (normalizadas v) \<noteq> []
           then Inl (CategoriasNoPermitidas (desconocidas (normalizadas v)))
      else Inr (normalizadas v))"

subsection \<open>Validation of the model\<close>

text \<open>
  A \<^verbatim>\<open>field_validator\<close> without a mode runs after pydantic's own validation of the
  field, so a value reaches the validator only when the constraints of the declaration
  hold. The fields are validated in the order of their declaration and the errors of all
  fields are reported together. \<open>InvalidOperation\<close> is not a \<^verbatim>\<open>ValueError\<close>, and
  pydantic would let it pass through instead of reporting it; it is kept among the errors
  here, and no price that satisfies the constraints of the declaration raises it.
\<close>

definition after_validator :: "('a \<Rightarrow> error + 'a) \<Rightarrow> ('a \<Rightarrow> error + 'a) \<Rightarrow> 'a \<Rightarrow> error + 'a" where
  "after_validator field validator v =
     (case field v of Inl e \<Rightarrow> Inl e | Inr w \<Rightarrow> validator w)"

definition errores :: "error + 'a \<Rightarrow> error list" where
  "errores r = (case r of Inl e \<Rightarrow> [e] | Inr w \<Rightarrow> [])"

definition ProductoIn_validate :: "campos \<Rightarrow> error list + ProductoIn" where
  "ProductoIn_validate raw =
     (let rn = after_validator field_nombre validar_nombre (c_nombre raw);
          rp = after_validator field_precio normalizar_precio (c_precio raw);
          rc = after_validator field_categorias validar_categorias (c_categorias raw)
      in case (rn, rp, rc) of
           (Inr n, Inr p, Inr cs) \<Rightarrow> Inr \<lparr>nombre = n, precio = p, categorias = cs\<rparr>
         | _ \<Rightarrow> Inl (errores rn @ errores rp @ errores rc))"

section \<open>The store and the handlers\<close>

text \<open>
  \<^verbatim>\<open>DB: Dict[UUID, ProductoOut] = {}\<close> is a map from identifiers to stored products. A
  handler takes the dictionary and returns its answer with the dictionary it leaves.
\<close>

type_synonym DB = "uuid \<rightharpoonup> ProductoOut"

definition model_dump :: "ProductoIn \<Rightarrow> campos" where
  "model_dump prd =
     \<lparr>c_nombre = nombre prd, c_precio = precio prd, c_categorias = categorias prd\<rparr>"

text \<open>
  \<^verbatim>\<open>ProductoOut(id=..., **prod.model_dump())\<close>: \<^verbatim>\<open>ProductoOut\<close> inherits the fields and the
  validators of \<^verbatim>\<open>ProductoIn\<close>, so building it validates the dumped fields once more.
\<close>

definition ProductoOut_validate :: "uuid \<Rightarrow> campos \<Rightarrow> error list + ProductoOut" where
  "ProductoOut_validate u raw =
     (case ProductoIn_validate raw of
        Inl es \<Rightarrow> Inl es
      | Inr p \<Rightarrow> Inr \<lparr>nombre = nombre p, precio = precio p, categorias = categorias p,
                     id_out = u\<rparr>)"

text \<open>
  \<^verbatim>\<open>crear_producto\<close>. The identifier \<open>u\<close> is the value that the call of \<^verbatim>\<open>uuid4()\<close> returns.
  A validation error while building the \<^verbatim>\<open>ProductoOut\<close> is not handled, and reaches the
  client as a server error.
\<close>

definition crear_producto :: "uuid \<Rightarrow> ProductoIn \<Rightarrow> DB \<Rightarrow> (http_error + ProductoOut) \<times> DB" where
  "crear_producto u prd db =
     (case ProductoOut_validate u (model_dump prd) of
        Inl es \<Rightarrow> (Inl (HTTP_500 es), db)
      | Inr nuevo \<Rightarrow> (Inr nuevo, db(id_out nuevo \<mapsto> nuevo)))"

definition obtener_producto :: "uuid \<Rightarrow> DB \<Rightarrow> (http_error + ProductoOut) \<times> DB" where
  "obtener_producto producto_id db =
     (case db producto_id of
        None \<Rightarrow> (Inl HTTP_404, db)
      | Some prd \<Rightarrow> (Inr prd, db))"

definition actualizar_producto ::
  "uuid \<Rightarrow> ProductoIn \<Rightarrow> DB \<Rightarrow> (http_error + ProductoOut) \<times> DB" where
  "actualizar_producto producto_id prd db =
     (if producto_id \<notin> dom db then (Inl HTTP_404, db)
      else (case ProductoOut_validate producto_id (model_dump prd) of
              Inl es \<Rightarrow> (Inl (HTTP_500 es), db)
            | Inr actualizado \<Rightarrow> (Inr actualizado, db(producto_id \<mapsto> actualizado))))"

definition eliminar_producto :: "uuid \<Rightarrow> DB \<Rightarrow> (http_error + unit) \<times> DB" where
  "eliminar_producto producto_id db =
     (if producto_id \<notin> dom db then (Inl HTTP_404, db)
      else (Inr (), db(producto_id := None)))"

subsection \<open>The routes\<close>

text \<open>
  A handler with a parameter \<^verbatim>\<open>prod: ProductoIn\<close> is called by the framework with the
  validated body; a body that fails validation is answered with status 422 and the
  handler is not called.
\<close>

definition post_productos :: "uuid \<Rightarrow> campos \<Rightarrow> DB \<Rightarrow> (http_error + ProductoOut) \<times> DB" where
  "post_productos u body db =
     (case ProductoIn_validate body of
        Inl es \<Rightarrow> (Inl (HTTP_422 es), db)
      | Inr prd \<Rightarrow> crear_producto u prd db)"

definition put_productos :: "uuid \<Rightarrow> campos \<Rightarrow> DB \<Rightarrow> (http_error + ProductoOut) \<times> DB" where
  "put_productos producto_id body db =
     (case ProductoIn_validate body of
        Inl es \<Rightarrow> (Inl (HTTP_422 es), db)
      | Inr prd \<Rightarrow> actualizar_producto producto_id prd db)"





section \<open>Evaluation and auxiliary facts\<close>

lemmas str_eval = strip_def isspace_def lower_def lower_char_def char_of_def bit_iff_odd

lemma catalogo_fixed:
  "c \<in> CATALOGO_CATEGORIAS \<Longrightarrow> c \<noteq> [] \<and> strip c = c \<and> lower c = c"
  unfolding CATALOGO_CATEGORIAS_def
  by (elim insertE emptyE; hypsubst; simp add: str_eval)

lemma normalizadas_catalogo:
  assumes "set cs \<subseteq> CATALOGO_CATEGORIAS"
  shows "normalizadas cs = cs"
proof -
  have keep: "filter (\<lambda>c. c \<noteq> [] \<and> strip c \<noteq> []) cs = cs"
    using assms catalogo_fixed by (intro filter_True) auto
  have "map (\<lambda>c. lower (strip c)) cs = cs"
    using assms catalogo_fixed by (intro map_idI) auto
  with keep show ?thesis by (simp add: normalizadas_def)
qed

lemma length_normalizadas: "length (normalizadas v) \<le> length v"
  by (simp add: normalizadas_def)

lemma desconocidas_empty: "desconocidas ns = [] \<longleftrightarrow> set ns \<subseteq> CATALOGO_CATEGORIAS"
  by (auto simp: desconocidas_def filter_empty_conv)

lemma len_card_distinct: "length xs = card (set xs) \<longleftrightarrow> distinct xs"
  using card_distinct [of xs] distinct_card [of xs] by auto

lemma validar_categorias_Inr:
  "validar_categorias v = Inr cs \<longleftrightarrow>
     cs = normalizadas v \<and> cs \<noteq> [] \<and> distinct cs \<and> set cs \<subseteq> CATALOGO_CATEGORIAS"
  unfolding validar_categorias_def desconocidas_empty len_card_distinct
  by auto

lemma strip_zeros_shift: "c \<noteq> 0 \<Longrightarrow> strip_zeros (c * 10 ^ k) (e - int k) = strip_zeros c e"
proof (induction k)
  case 0
  then show ?case by simp
next
  case (Suc k)
  have "strip_zeros (c * 10 ^ Suc k) (e - int (Suc k)) = strip_zeros (c * 10 ^ k) (e - int k)"
    using Suc.prems by (subst strip_zeros.simps) (simp add: algebra_simps)
  with Suc show ?case by simp
qed

lemma strip_zeros_factor:
  "strip_zeros c e = (c0, e0) \<Longrightarrow> e \<le> e0 \<and> c = c0 * 10 ^ nat (e0 - e)"
proof (induction c e rule: strip_zeros.induct)
  case (1 c e)
  show ?case
  proof (cases "c \<noteq> 0 \<and> c mod 10 = 0")
    case True
    with "1.prems" have "strip_zeros (c div 10) (e + 1) = (c0, e0)"
      by (subst (asm) strip_zeros.simps) simp
    with "1.IH" True have ih: "e + 1 \<le> e0" "c div 10 = c0 * 10 ^ nat (e0 - (e + 1))"
      by auto
    have "nat (e0 - e) = Suc (nat (e0 - (e + 1)))" using ih(1) by simp
    moreover have "c = (c div 10) * 10" using True by auto
    ultimately show ?thesis using ih by simp
  next
    case False
    with "1.prems" have "(c, e) = (c0, e0)"
      by (subst (asm) strip_zeros.simps) auto
    then show ?thesis by simp
  qed
qed

lemma field_precio_Dec:
  "field_precio (Dec s c e) = Inr w \<longleftrightarrow>
     w = Dec s c e \<and> \<not> s \<and> c \<noteq> 0
     \<and> (case digits_info (fst (strip_zeros c e)) (snd (strip_zeros c e)) of
          (decimals, digits) \<Rightarrow> \<not> 10 < digits \<and> \<not> 2 < decimals \<and> \<not> 8 < digits - decimals)"
  by (cases "c = 0") (auto simp: field_precio_def normalize_def digits_info_def split: prod.splits if_splits)

lemma field_precio_Inr_cases:
  assumes "field_precio v = Inr w"
  obtains c e where "v = Dec False c e" "w = v" "c \<noteq> 0"
  using assms by (cases v) (auto simp: field_precio_Dec, auto simp: field_precio_def)

lemma decimals_bound:
  assumes "case digits_info c0 e0 of (decimals, digits) \<Rightarrow>
             \<not> 10 < digits \<and> \<not> 2 < decimals \<and> \<not> 8 < digits - decimals"
  shows "- 2 \<le> e0"
  using assms by (auto simp: digits_info_def split: if_splits)

lemma quantize_exact:
  assumes c: "c \<noteq> 0" and e0: "- 2 \<le> snd (strip_zeros c e)"
    and q: "quantize_half_up (Dec s c e) = Inr q"
  obtains c' where "q = Dec s c' (- 2)" "c' \<noteq> 0" "strip_zeros c' (- 2) = strip_zeros c e"
    "\<not> 28 < ndigits c'"
proof (cases "- 2 \<le> e")
  case True
  define c' where "c' = c * 10 ^ nat (e + 2)"
  from q True have "q = Dec s c' (- 2)" "\<not> 28 < ndigits c'"
    by (auto simp: quantize_half_up_def c'_def Let_def split: if_splits)
  moreover have "c' \<noteq> 0" using c by (simp add: c'_def)
  moreover have "strip_zeros c' (- 2) = strip_zeros c e"
    using strip_zeros_shift [OF c, of "nat (e + 2)" e] True by (simp add: c'_def)
  ultimately show ?thesis using that by blast
next
  case False
  define k where "k = nat (- 2 - e)"
  obtain c0 e1 where sz: "strip_zeros c e = (c0, e1)" by (cases "strip_zeros c e")
  from strip_zeros_factor [OF sz] have fac: "e \<le> e1" "c = c0 * 10 ^ nat (e1 - e)" by auto
  from e0 sz have e1: "- 2 \<le> e1" by simp
  define m where "m = nat (e1 - e) - k"
  have split_exp: "nat (e1 - e) = m + k" using e1 False by (simp add: m_def k_def)
  define c' where "c' = c0 * 10 ^ m"
  have ceq: "c = c' * 10 ^ k" by (simp add: fac(2) split_exp c'_def power_add)
  have c'0: "c' \<noteq> 0" using c ceq by auto
  have "c div 10 ^ k = c'" "c mod 10 ^ k = 0" by (simp_all add: ceq)
  with q False have "q = Dec s c' (- 2)" "\<not> 28 < ndigits c'"
    by (auto simp: quantize_half_up_def Let_def k_def [symmetric] split: if_splits)
  moreover have "strip_zeros c' (- 2) = strip_zeros c e"
    using strip_zeros_shift [OF c'0, of k "- 2"] False by (simp add: ceq k_def)
  ultimately show ?thesis using that c'0 by blast
qed

lemma precio_revalida:
  assumes f: "field_precio v = Inr w" and q: "normalizar_precio w = Inr q"
  shows "field_precio q = Inr q \<and> normalizar_precio q = Inr q
         \<and> (\<exists>c'. q = Dec False c' (- 2) \<and> c' \<noteq> 0)"
proof -
  from f obtain c e where v: "v = Dec False c e" "w = v" "c \<noteq> 0"
    by (rule field_precio_Inr_cases)
  from f v have ok: "case digits_info (fst (strip_zeros c e)) (snd (strip_zeros c e)) of
      (decimals, digits) \<Rightarrow> \<not> 10 < digits \<and> \<not> 2 < decimals \<and> \<not> 8 < digits - decimals"
    by (simp add: field_precio_Dec)
  then have bound: "- 2 \<le> snd (strip_zeros c e)" by (rule decimals_bound)
  from v q have q': "quantize_half_up (Dec False c e) = Inr q"
    by (simp add: normalizar_precio_def)
  from v(3) bound q' obtain c' where c': "q = Dec False c' (- 2)" "c' \<noteq> 0"
      "strip_zeros c' (- 2) = strip_zeros c e" "\<not> 28 < ndigits c'"
    by (rule quantize_exact)
  have "field_precio q = Inr q" using c' ok by (simp add: field_precio_Dec)
  moreover have "normalizar_precio q = Inr q"
    using c' by (simp add: normalizar_precio_def quantize_half_up_def)
  ultimately show ?thesis using c' by blast
qed

lemma ndigits_shift: "c \<noteq> 0 \<Longrightarrow> ndigits (c * 10 ^ m) = ndigits c + m"
proof (induction m)
  case 0
  then show ?case by simp
next
  case (Suc m)
  define n where "n = c * 10 ^ m"
  have n: "0 < n" "c * 10 ^ Suc m = 10 * n" using Suc.prems by (simp_all add: n_def)
  then have "10 \<le> c * 10 ^ Suc m" by arith
  then have "ndigits (c * 10 ^ Suc m) = Suc (ndigits (c * 10 ^ Suc m div 10))"
    by (subst ndigits.simps) simp
  also have "c * 10 ^ Suc m div 10 = c * 10 ^ m" by simp
  finally show ?case using Suc by simp
qed

lemma normalizar_precio_total:
  assumes "field_precio v = Inr w"
  shows "\<exists>q. normalizar_precio w = Inr q"
proof -
  from assms obtain c e where v: "v = Dec False c e" "w = v" "c \<noteq> 0"
    by (rule field_precio_Inr_cases)
  obtain c0 e0 where sz: "strip_zeros c e = (c0, e0)" by (cases "strip_zeros c e")
  from assms v sz have ok: "case digits_info c0 e0 of
      (decimals, digits) \<Rightarrow> \<not> 10 < digits \<and> \<not> 2 < decimals \<and> \<not> 8 < digits - decimals"
    by (simp add: field_precio_Dec)
  then have e0: "- 2 \<le> e0" by (rule decimals_bound)
  from strip_zeros_factor [OF sz] have fac: "e \<le> e0" "c = c0 * 10 ^ nat (e0 - e)" by auto
  from fac v have c0: "c0 \<noteq> 0" by auto
  from ok e0 have nd: "ndigits c0 + nat (e0 + 2) \<le> 12"
    by (auto simp: digits_info_def split: if_splits)
  define c' where "c' = (if - 2 \<le> e then c * 10 ^ nat (e + 2)
                     else (let k = nat (- 2 - e)
                           in c div 10 ^ k + (if 10 ^ k \<le> 2 * (c mod 10 ^ k) then 1 else 0)))"
  have "c' = c0 * 10 ^ nat (e0 + 2)"
  proof (cases "- 2 \<le> e")
    case True
    have "nat (e0 - e) + nat (e + 2) = nat (e0 + 2)" using True fac(1) by simp
    then show ?thesis using True fac(2) by (simp add: c'_def power_add [symmetric])
  next
    case False
    define k where "k = nat (- 2 - e)"
    have split_exp: "nat (e0 - e) = nat (e0 + 2) + k" using e0 False by (simp add: k_def)
    have ceq: "c = (c0 * 10 ^ nat (e0 + 2)) * 10 ^ k" by (simp add: fac(2) split_exp power_add)
    have "c div 10 ^ k = c0 * 10 ^ nat (e0 + 2)" "c mod 10 ^ k = 0" by (simp_all add: ceq)
    then show ?thesis using False by (simp add: c'_def Let_def k_def [symmetric])
  qed
  then have "ndigits c' \<le> 12" using ndigits_shift [OF c0] nd by simp
  then have "quantize_half_up (Dec False c e) = Inr (Dec False c' (- 2))"
    by (simp add: quantize_half_up_def c'_def [symmetric])
  then show ?thesis using v by (simp add: normalizar_precio_def)
qed

lemma strip_Nil: "strip [] = []"
  by (simp add: strip_def)

lemma nombre_Inr:
  "after_validator field_nombre validar_nombre v = Inr n \<longleftrightarrow>
     n = v \<and> 3 \<le> length v \<and> length v \<le> 60 \<and> strip v \<noteq> []"
  by (auto simp: after_validator_def field_nombre_def validar_nombre_def)

lemma categorias_Inr:
  "after_validator field_categorias validar_categorias v = Inr cs \<longleftrightarrow>
     1 \<le> length v \<and> length v \<le> 10 \<and> cs = normalizadas v \<and> cs \<noteq> [] \<and> distinct cs
     \<and> set cs \<subseteq> CATALOGO_CATEGORIAS"
  by (auto simp: after_validator_def field_categorias_def validar_categorias_Inr Suc_le_eq)

lemma precio_Inr:
  "after_validator field_precio normalizar_precio v = Inr q \<longleftrightarrow>
     field_precio v = Inr v \<and> normalizar_precio v = Inr q"
  by (auto simp: after_validator_def split: sum.splits elim: field_precio_Inr_cases)

lemma ProductoIn_validate_Inr:
  "ProductoIn_validate raw = Inr p \<longleftrightarrow>
     after_validator field_nombre validar_nombre (c_nombre raw) = Inr (nombre p)
     \<and> after_validator field_precio normalizar_precio (c_precio raw) = Inr (precio p)
     \<and> after_validator field_categorias validar_categorias (c_categorias raw)
         = Inr (categorias p)"
  by (cases p) (auto simp: ProductoIn_validate_def Let_def split: sum.splits)

lemma validate_model_dump:
  assumes "ProductoIn_validate raw = Inr p"
  shows "ProductoIn_validate (model_dump p) = Inr p"
proof -
  from assms have n: "after_validator field_nombre validar_nombre (c_nombre raw) = Inr (nombre p)"
    and q: "after_validator field_precio normalizar_precio (c_precio raw) = Inr (precio p)"
    and c: "after_validator field_categorias validar_categorias (c_categorias raw)
         = Inr (categorias p)"
    by (simp_all add: ProductoIn_validate_Inr)
  from n have n': "after_validator field_nombre validar_nombre (nombre p) = Inr (nombre p)"
    by (auto simp: nombre_Inr)
  from q have "field_precio (precio p) = Inr (precio p) \<and> normalizar_precio (precio p) = Inr (precio p)"
    using precio_revalida [of "c_precio raw" "c_precio raw" "precio p"] by (simp add: precio_Inr)
  then have q': "after_validator field_precio normalizar_precio (precio p) = Inr (precio p)"
    by (simp add: precio_Inr)
  from c have cs: "categorias p \<noteq> []" "distinct (categorias p)"
      "set (categorias p) \<subseteq> CATALOGO_CATEGORIAS" "length (categorias p) \<le> 10"
    using length_normalizadas [of "c_categorias raw"] by (auto simp: categorias_Inr)
  then have "normalizadas (categorias p) = categorias p" by (simp add: normalizadas_catalogo)
  with cs have c': "after_validator field_categorias validar_categorias (categorias p)
         = Inr (categorias p)"
    by (cases "categorias p") (auto simp: categorias_Inr)
  from n' q' c' show ?thesis by (simp add: ProductoIn_validate_Inr model_dump_def)
qed


lemma crear_producto_validated:
  assumes "ProductoIn_validate raw = Inr p"
  shows "crear_producto u p db =
     (Inr \<lparr>nombre = nombre p, precio = precio p, categorias = categorias p, id_out = u\<rparr>,
      db(u \<mapsto> \<lparr>nombre = nombre p, precio = precio p, categorias = categorias p, id_out = u\<rparr>))"
  using validate_model_dump [OF assms]
  by (simp add: crear_producto_def ProductoOut_validate_def)



lemma validated_normal:
  assumes "ProductoIn_validate raw = Inr p"
  shows "(\<exists>c. precio p = Dec False c (- 2) \<and> c \<noteq> 0)
         \<and> categorias p \<noteq> [] \<and> distinct (categorias p)
         \<and> (\<forall>k \<in> set (categorias p). k \<in> CATALOGO_CATEGORIAS \<and> lower k = k \<and> strip k = k)"
proof -
  from assms have q: "field_precio (c_precio raw) = Inr (c_precio raw)"
      "normalizar_precio (c_precio raw) = Inr (precio p)"
    and c: "categorias p \<noteq> []" "distinct (categorias p)"
      "set (categorias p) \<subseteq> CATALOGO_CATEGORIAS"
    by (auto simp: ProductoIn_validate_Inr precio_Inr categorias_Inr)
  from precio_revalida [OF q] have "\<exists>c. precio p = Dec False c (- 2) \<and> c \<noteq> 0" by simp
  moreover from c(3) have "\<forall>k \<in> set (categorias p). k \<in> CATALOGO_CATEGORIAS \<and> lower k = k \<and> strip k = k"
    using catalogo_fixed by blast
  ultimately show ?thesis using c by simp
qed


lemma actualizar_producto_validated:
  assumes "ProductoIn_validate raw = Inr p" and "db x \<noteq> None"
  shows "actualizar_producto x p db =
     (Inr \<lparr>nombre = nombre p, precio = precio p, categorias = categorias p, id_out = x\<rparr>,
      db(x \<mapsto> \<lparr>nombre = nombre p, precio = precio p, categorias = categorias p, id_out = x\<rparr>))"
  using validate_model_dump [OF assms(1)] assms(2)
  by (auto simp: actualizar_producto_def ProductoOut_validate_def)

lemma catalogo_letras:
  "c \<in> CATALOGO_CATEGORIAS \<Longrightarrow>
     c \<noteq> [] \<and> (\<forall>ch \<in> set c. 97 \<le> (of_char ch :: nat) \<and> (of_char ch :: nat) \<le> 122)"
  unfolding CATALOGO_CATEGORIAS_def
  by (elim insertE emptyE; hypsubst; simp)

lemma normalizadas_unfold:
  "normalizadas v = map (\<lambda>c. lower (strip c)) (filter (\<lambda>c. strip c \<noteq> []) v)"
proof -
  have "(\<lambda>c. c \<noteq> [] \<and> strip c \<noteq> []) = (\<lambda>c. strip c \<noteq> [])"
    using strip_Nil by auto
  then show ?thesis by (simp add: normalizadas_def)
qed



lemmas store_eval =
  post_productos_def put_productos_def crear_producto_def actualizar_producto_def
  obtener_producto_def eliminar_producto_def ProductoOut_validate_def model_dump_def

lemmas validate_eval =
  ProductoIn_validate_def after_validator_def errores_def
  field_nombre_def field_precio_def field_categorias_def
  validar_nombre_def normalizar_precio_def validar_categorias_def
  quantize_half_up_def normalize_def strip_zeros.simps digits_info_def ndigits.simps
  normalizadas_def desconocidas_def CATALOGO_CATEGORIAS_def str_eval Let_def

section \<open>Properties of the validator\<close>

text \<open>
  Claim C1 (a price with more than two fractional digits is accepted and rounded half up:
  10.005 is stored as 10.01 and 10.004 as 10.00). The validator \<^verbatim>\<open>normalizar_precio\<close>
  does round 10.005 to 10.01 and 10.004 to 10.00, but it runs after the constraints of
  the field declaration, and \<^verbatim>\<open>decimal_places=2\<close> rejects both prices before it is
  reached: the body is answered with the error \<open>DecimalMaxPlaces\<close>.
\<close>

theorem precio_tres_decimales:
  "ProductoIn_validate \<lparr>c_nombre = ''Miel de abeja'', c_precio = Dec False 10005 (- 3),
      c_categorias = [''granos'']\<rparr> = Inl [DecimalMaxPlaces]
   \<and> ProductoIn_validate \<lparr>c_nombre = ''Miel de abeja'', c_precio = Dec False 10004 (- 3),
      c_categorias = [''granos'']\<rparr> = Inl [DecimalMaxPlaces]
   \<and> normalizar_precio (Dec False 10005 (- 3)) = Inr (Dec False 1001 (- 2))
   \<and> normalizar_precio (Dec False 10004 (- 3)) = Inr (Dec False 1000 (- 2))"
  by (simp add: validate_eval)

text \<open>
  Claim C2 (a name is rejected exactly when its trimmed length is below 3 or above 60 or
  it is blank, and the stored name is the trimmed one). The declaration asks for
  \<^verbatim>\<open>strip_whitespace=True\<close>, which \<^verbatim>\<open>Field\<close> does not apply, and \<^verbatim>\<open>validar_nombre\<close>
  returns its argument: the name of five characters \<^verbatim>\<open>"  a  "\<close>, whose trimmed length is
  1, is accepted and stored with its blanks.
\<close>

theorem nombre_sin_recortar:
  "ProductoIn_validate \<lparr>c_nombre = ''  a  '', c_precio = Dec False 599 (- 2),
      c_categorias = [''granos'']\<rparr>
     = Inr \<lparr>nombre = ''  a  '', precio = Dec False 599 (- 2), categorias = [''granos'']\<rparr>
   \<and> length (strip ''  a  '') = 1"
  by (simp add: validate_eval)

text \<open>
  Claim C3: the bound of 1 to 10 entries is checked on the list as it was sent, before
  any normalisation: an empty list and a list of more than 10 entries are rejected with
  the length error, whatever normalisation would leave of them. After that every entry is
  stripped and lower-cased and the entries that are blank are dropped; validation fails
  for want of a valid category exactly when nothing remains. A list that is accepted is
  returned as the stripped, lower-cased, non-blank entries of the input, in their order,
  and every character of it is one of the letters a to z. The list \<^verbatim>\<open>["  ", ""]\<close>
  passes the length check and is rejected for having no valid category; the list
  \<^verbatim>\<open>[" GRANOS ", "", "Frutas"]\<close> is accepted as \<^verbatim>\<open>["granos", "frutas"]\<close>.
\<close>

theorem categorias_longitud_cruda:
  "(length v < 1 \<longrightarrow> after_validator field_categorias validar_categorias v = Inl TooShort)
   \<and> (10 < length v \<longrightarrow> after_validator field_categorias validar_categorias v = Inl TooLong)
   \<and> normalizadas v = map (\<lambda>c. lower (strip c)) (filter (\<lambda>c. strip c \<noteq> []) v)
   \<and> (1 \<le> length v \<and> length v \<le> 10 \<and> normalizadas v = [] \<longrightarrow>
        after_validator field_categorias validar_categorias v = Inl SinCategoriaValida)
   \<and> (1 \<le> length v \<and> length v \<le> 10 \<and> filter (\<lambda>c. strip c \<noteq> []) v \<noteq> [] \<longrightarrow>
        after_validator field_categorias validar_categorias v \<noteq> Inl SinCategoriaValida)
   \<and> (after_validator field_categorias validar_categorias v = Inr cs \<longrightarrow>
        1 \<le> length v \<and> length v \<le> 10 \<and> cs \<noteq> []
        \<and> cs = map (\<lambda>c. lower (strip c)) (filter (\<lambda>c. strip c \<noteq> []) v)
        \<and> (\<forall>c \<in> set cs. c \<noteq> []
              \<and> (\<forall>ch \<in> set c. 97 \<le> (of_char ch :: nat) \<and> (of_char ch :: nat) \<le> 122)))"
proof -
  let ?r = "after_validator field_categorias validar_categorias v"
  have c1: "length v < 1 \<longrightarrow> ?r = Inl TooShort"
    by (simp add: after_validator_def field_categorias_def)
  have c2: "10 < length v \<longrightarrow> ?r = Inl TooLong"
    by (simp add: after_validator_def field_categorias_def)
  have c4: "1 \<le> length v \<and> length v \<le> 10 \<and> normalizadas v = [] \<longrightarrow> ?r = Inl SinCategoriaValida"
    by (simp add: after_validator_def field_categorias_def validar_categorias_def)
  have c5: "1 \<le> length v \<and> length v \<le> 10 \<and> filter (\<lambda>c. strip c \<noteq> []) v \<noteq> [] \<longrightarrow>
        ?r \<noteq> Inl SinCategoriaValida"
  proof (rule impI)
    assume h: "1 \<le> length v \<and> length v \<le> 10 \<and> filter (\<lambda>c. strip c \<noteq> []) v \<noteq> []"
    then have "normalizadas v \<noteq> []" by (simp add: normalizadas_unfold)
    moreover from h have "v \<noteq> []" by auto
    moreover from h have "length v \<le> 10" by simp
    ultimately show "?r \<noteq> Inl SinCategoriaValida"
      by (simp add: after_validator_def field_categorias_def validar_categorias_def)
  qed
  have c6: "?r = Inr cs \<longrightarrow>
        1 \<le> length v \<and> length v \<le> 10 \<and> cs \<noteq> []
        \<and> cs = map (\<lambda>c. lower (strip c)) (filter (\<lambda>c. strip c \<noteq> []) v)
        \<and> (\<forall>c \<in> set cs. c \<noteq> []
              \<and> (\<forall>ch \<in> set c. 97 \<le> (of_char ch :: nat) \<and> (of_char ch :: nat) \<le> 122))"
  proof (rule impI)
    assume r: "?r = Inr cs"
    have a: "1 \<le> length v \<and> length v \<le> 10 \<and> cs = normalizadas v \<and> cs \<noteq> []
        \<and> distinct cs \<and> set cs \<subseteq> CATALOGO_CATEGORIAS"
      by (rule iffD1 [OF categorias_Inr r])
    from a have a1: "1 \<le> length v" by (elim conjE)
    from a have a2: "length v \<le> 10" by (elim conjE)
    from a have a3: "cs \<noteq> []" by (elim conjE)
    from a have e: "cs = normalizadas v" by (elim conjE)
    from a have a5: "set cs \<subseteq> CATALOGO_CATEGORIAS" by (elim conjE)
    have a4: "cs = map (\<lambda>c. lower (strip c)) (filter (\<lambda>c. strip c \<noteq> []) v)"
      unfolding e by (rule normalizadas_unfold)
    have a6: "\<forall>c \<in> set cs. c \<noteq> []
              \<and> (\<forall>ch \<in> set c. 97 \<le> (of_char ch :: nat) \<and> (of_char ch :: nat) \<le> 122)"
    proof
      fix c assume "c \<in> set cs"
      with a5 have "c \<in> CATALOGO_CATEGORIAS" by (rule subsetD)
      then show "c \<noteq> []
              \<and> (\<forall>ch \<in> set c. 97 \<le> (of_char ch :: nat) \<and> (of_char ch :: nat) \<le> 122)"
        by (rule catalogo_letras)
    qed
    show "1 \<le> length v \<and> length v \<le> 10 \<and> cs \<noteq> []
        \<and> cs = map (\<lambda>c. lower (strip c)) (filter (\<lambda>c. strip c \<noteq> []) v)
        \<and> (\<forall>c \<in> set cs. c \<noteq> []
              \<and> (\<forall>ch \<in> set c. 97 \<le> (of_char ch :: nat) \<and> (of_char ch :: nat) \<le> 122))"
      by (rule conjI [OF a1 conjI [OF a2 conjI [OF a3 conjI [OF a4 a6]]]])
  qed
  show ?thesis
    by (rule conjI [OF c1 conjI [OF c2 conjI [OF normalizadas_unfold conjI [OF c4 conjI [OF c5 c6]]]]])
qed

theorem categorias_longitud_cruda_witness:
  "length ([] :: string list) < 1
   \<and> after_validator field_categorias validar_categorias [] = Inl TooShort
   \<and> 10 < length [''granos'', '''', '''', '''', '''', '''', '''', '''', '''', '''', '''']
   \<and> normalizadas [''granos'', '''', '''', '''', '''', '''', '''', '''', '''', '''', '''']
       = [''granos'']
   \<and> after_validator field_categorias validar_categorias
        [''granos'', '''', '''', '''', '''', '''', '''', '''', '''', '''', ''''] = Inl TooLong
   \<and> 1 \<le> length [''  '', ''''] \<and> length [''  '', ''''] \<le> 10
   \<and> normalizadas [''  '', ''''] = []
   \<and> after_validator field_categorias validar_categorias [''  '', ''''] = Inl SinCategoriaValida
   \<and> 1 \<le> length ['' GRANOS '', '''', ''Frutas''] \<and> length ['' GRANOS '', '''', ''Frutas''] \<le> 10
   \<and> filter (\<lambda>c. strip c \<noteq> []) ['' GRANOS '', '''', ''Frutas''] = ['' GRANOS '', ''Frutas'']
   \<and> strip '' GRANOS '' = ''GRANOS'' \<and> lower ''GRANOS'' = ''granos''
   \<and> after_validator field_categorias validar_categorias ['' GRANOS '', '''', ''Frutas'']
       = Inr [''granos'', ''frutas'']
   \<and> after_validator field_categorias validar_categorias ['' GRANOS '', '''', ''Frutas'']
       \<noteq> Inl SinCategoriaValida
   \<and> [''granos'', ''frutas'']
       = map (\<lambda>c. lower (strip c)) (filter (\<lambda>c. strip c \<noteq> []) ['' GRANOS '', '''', ''Frutas''])"
proof -
  let ?v2 = "[''granos'', '''', '''', '''', '''', '''', '''', '''', '''', '''', '''']"
  let ?v3 = "[''  '', '''']"
  let ?v4 = "['' GRANOS '', '''', ''Frutas'']"
  have h3: "normalizadas ?v3 = []"
    by (simp add: normalizadas_def str_eval)
  have h2: "normalizadas ?v2 = [''granos'']"
    by (simp add: normalizadas_def str_eval)
  have k: "filter (\<lambda>c. strip c \<noteq> []) ?v4 = ['' GRANOS '', ''Frutas'']"
    "strip '' GRANOS '' = ''GRANOS''" "lower ''GRANOS'' = ''granos''"
    by (simp_all add: str_eval)
  have a: "after_validator field_categorias validar_categorias ?v4 = Inr [''granos'', ''frutas'']"
    by (simp add: after_validator_def field_categorias_def validar_categorias_def
        normalizadas_def desconocidas_def CATALOGO_CATEGORIAS_def str_eval)
  have l1: "length ([] :: string list) < 1" by simp
  have l2: "10 < length ?v2" by simp
  have l3: "1 \<le> length ?v3 \<and> length ?v3 \<le> 10" by simp
  have l4: "1 \<le> length ?v4 \<and> length ?v4 \<le> 10" by simp
  have t1: "after_validator field_categorias validar_categorias [] = Inl TooShort"
    using categorias_longitud_cruda [of "[]"] l1 by blast
  have t2: "after_validator field_categorias validar_categorias ?v2 = Inl TooLong"
    using categorias_longitud_cruda [of ?v2] l2 by blast
  have t3: "after_validator field_categorias validar_categorias ?v3 = Inl SinCategoriaValida"
    using categorias_longitud_cruda [of ?v3] l3 h3 by blast
  have t4: "after_validator field_categorias validar_categorias ?v4 \<noteq> Inl SinCategoriaValida"
    using a by simp
  have t5: "[''granos'', ''frutas'']
      = map (\<lambda>c. lower (strip c)) (filter (\<lambda>c. strip c \<noteq> []) ?v4)"
    using categorias_longitud_cruda [of ?v4 "[''granos'', ''frutas'']"] a by blast
  show ?thesis
    using l1 t1 l2 h2 t2 l3 h3 t3 l4 k a t4 t5 by simp
qed

text \<open>
  Claim C5, amended: a list of categories with a normalised entry outside the catalogue is
  always rejected; when the list has 1 to 10 entries and its normalised entries are
  pairwise distinct, the error is the one for unknown categories and it carries all the
  normalised entries that are outside the catalogue, in their order. The list
  \<^verbatim>\<open>["granos", "marcianos"]\<close> is rejected with the list \<^verbatim>\<open>["marcianos"]\<close>.
\<close>

theorem categorias_desconocidas_todas:
  "(\<not> set (normalizadas v) \<subseteq> CATALOGO_CATEGORIAS \<longrightarrow>
      (\<exists>e. after_validator field_categorias validar_categorias v = Inl e))
   \<and> (1 \<le> length v \<and> length v \<le> 10 \<and> distinct (normalizadas v)
       \<and> \<not> set (normalizadas v) \<subseteq> CATALOGO_CATEGORIAS \<longrightarrow>
      after_validator field_categorias validar_categorias v
        = Inl (CategoriasNoPermitidas (filter (\<lambda>c. c \<notin> CATALOGO_CATEGORIAS) (normalizadas v))))"
proof -
  have "\<exists>e. after_validator field_categorias validar_categorias v = Inl e"
    if "\<not> set (normalizadas v) \<subseteq> CATALOGO_CATEGORIAS"
  proof (cases "after_validator field_categorias validar_categorias v")
    case (Inl e)
    then show ?thesis by simp
  next
    case (Inr cs)
    with that show ?thesis by (auto simp: categorias_Inr)
  qed
  moreover have "after_validator field_categorias validar_categorias v
        = Inl (CategoriasNoPermitidas (filter (\<lambda>c. c \<notin> CATALOGO_CATEGORIAS) (normalizadas v)))"
    if "1 \<le> length v" "length v \<le> 10" "distinct (normalizadas v)"
      "\<not> set (normalizadas v) \<subseteq> CATALOGO_CATEGORIAS"
  proof -
    from that(4) have "normalizadas v \<noteq> []" by auto
    moreover from that(4) have "desconocidas (normalizadas v) \<noteq> []"
      by (simp add: desconocidas_empty)
    moreover from that(1) have "v \<noteq> []" by auto
    ultimately show ?thesis using that(2,3)
      by (simp add: after_validator_def field_categorias_def validar_categorias_def
          len_card_distinct desconocidas_def)
  qed
  ultimately show ?thesis by blast
qed

theorem categorias_desconocidas_todas_witness:
  "1 \<le> length [''granos'', ''marcianos''] \<and> length [''granos'', ''marcianos''] \<le> 10
   \<and> distinct (normalizadas [''granos'', ''marcianos''])
   \<and> \<not> set (normalizadas [''granos'', ''marcianos'']) \<subseteq> CATALOGO_CATEGORIAS
   \<and> after_validator field_categorias validar_categorias [''granos'', ''marcianos'']
       = Inl (CategoriasNoPermitidas [''marcianos''])"
proof -
  have h: "normalizadas [''granos'', ''marcianos''] = [''granos'', ''marcianos'']"
    by (simp add: normalizadas_def str_eval)
  have k: "\<not> set [''granos'', ''marcianos''] \<subseteq> CATALOGO_CATEGORIAS"
    "filter (\<lambda>c. c \<notin> CATALOGO_CATEGORIAS) [''granos'', ''marcianos''] = [''marcianos'']"
    by (simp_all add: CATALOGO_CATEGORIAS_def)
  show ?thesis
    using h k categorias_desconocidas_todas [of "[''granos'', ''marcianos'']"] by simp
qed

text \<open>
  The claim C5 as it is written (every list with an unknown entry is rejected with an error
  that lists the unknown entries) fails where an earlier check answers first: the list
  \<^verbatim>\<open>["marcianos", "marcianos"]\<close> has the unknown entry \<^verbatim>\<open>"marcianos"\<close> and is rejected for
  its repetition, with an error that lists nothing.
\<close>

theorem categorias_desconocidas_counterexample:
  "''marcianos'' \<in> set (normalizadas [''marcianos'', ''marcianos''])
   \<and> ''marcianos'' \<notin> CATALOGO_CATEGORIAS
   \<and> after_validator field_categorias validar_categorias [''marcianos'', ''marcianos'']
       = Inl CategoriasRepetidas
   \<and> ProductoIn_validate \<lparr>c_nombre = ''Miel de abeja'', c_precio = Dec False 599 (- 2),
        c_categorias = [''marcianos'', ''marcianos'']\<rparr> = Inl [CategoriasRepetidas]"
  by (simp add: validate_eval)

text \<open>
  Claim C6, amended: a list of at most 10 categories in which two entries at different
  positions are not blank and become equal after stripping and lower-casing is rejected
  with the error for repeated categories. The list \<^verbatim>\<open>["granos", "Granos "]\<close> is rejected
  so.
\<close>

theorem categorias_repetidas:
  assumes "v = xs @ a # ys @ b # zs" and "length v \<le> 10"
    and "strip a \<noteq> []" and "strip b \<noteq> []" and "lower (strip a) = lower (strip b)"
  shows "after_validator field_categorias validar_categorias v = Inl CategoriasRepetidas"
proof -
  from assms(3,4) have ne: "a \<noteq> []" "b \<noteq> []" using strip_Nil by auto
  have "normalizadas v = normalizadas xs @ lower (strip a) # normalizadas ys
      @ lower (strip b) # normalizadas zs"
    using assms(1,3,4) ne by (simp add: normalizadas_def)
  with assms(5) have "\<not> distinct (normalizadas v)" "normalizadas v \<noteq> []" by auto
  moreover have "v \<noteq> []" using assms(1) by simp
  ultimately show ?thesis using assms(2)
    by (simp add: after_validator_def field_categorias_def validar_categorias_def
        len_card_distinct)
qed

theorem categorias_repetidas_witness:
  "[''granos'', ''Granos ''] = [] @ ''granos'' # [] @ ''Granos '' # []
   \<and> length [''granos'', ''Granos ''] \<le> 10
   \<and> strip ''granos'' \<noteq> [] \<and> strip ''Granos '' \<noteq> []
   \<and> lower (strip ''granos'') = lower (strip ''Granos '')
   \<and> after_validator field_categorias validar_categorias [''granos'', ''Granos '']
       = Inl CategoriasRepetidas"
proof -
  have h: "strip ''granos'' \<noteq> []" "strip ''Granos '' \<noteq> []"
    "lower (strip ''granos'') = lower (strip ''Granos '')"
    by (simp_all add: str_eval)
  have d: "[''granos'', ''Granos ''] = [] @ ''granos'' # [] @ ''Granos '' # []" by simp
  have l: "length [''granos'', ''Granos ''] \<le> 10" by simp
  from categorias_repetidas [OF d l h] h show ?thesis by simp
qed

text \<open>
  The claim C6 as it is written (any two entries that become equal after stripping and
  lower-casing make validation fail) fails for blank entries, which are dropped before the
  comparison: in \<^verbatim>\<open>["granos", " ", ""]\<close> the last two entries both become the empty string,
  and the list is accepted as \<^verbatim>\<open>["granos"]\<close>.
\<close>

theorem categorias_repetidas_counterexample:
  "lower (strip '' '') = lower (strip '''')
   \<and> after_validator field_categorias validar_categorias [''granos'', '' '', ''''] = Inr [''granos'']
   \<and> ProductoIn_validate \<lparr>c_nombre = ''Miel de abeja'', c_precio = Dec False 599 (- 2),
        c_categorias = [''granos'', '' '', '''']\<rparr>
       = Inr \<lparr>nombre = ''Miel de abeja'', precio = Dec False 599 (- 2),
              categorias = [''granos'']\<rparr>"
  by (simp add: validate_eval)

text \<open>
  Claim C4: for every accepted input, the product that is stored, by a create or by an
  update of an existing identifier, has a price with exactly two fractional digits (the
  exponent of the decimal is \<open>-2\<close>), and its categories are the normalised entries of
  the input: each one lower-case, stripped and a member of the catalogue, and no two of
  them equal.
\<close>

theorem accepted_input_normalised:
  assumes "ProductoIn_validate raw = Inr p"
  shows "post_productos u raw db =
           (Inr \<lparr>nombre = nombre p, precio = precio p, categorias = categorias p, id_out = u\<rparr>,
            db(u \<mapsto> \<lparr>nombre = nombre p, precio = precio p, categorias = categorias p,
                     id_out = u\<rparr>))
         \<and> (db x \<noteq> None \<longrightarrow> put_productos x raw db =
           (Inr \<lparr>nombre = nombre p, precio = precio p, categorias = categorias p, id_out = x\<rparr>,
            db(x \<mapsto> \<lparr>nombre = nombre p, precio = precio p, categorias = categorias p,
                     id_out = x\<rparr>)))
         \<and> (\<exists>c. precio p = Dec False c (- 2) \<and> c \<noteq> 0)
         \<and> categorias p = normalizadas (c_categorias raw)
         \<and> distinct (categorias p)
         \<and> (\<forall>k \<in> set (categorias p).
               lower k = k \<and> strip k = k \<and> k \<in> CATALOGO_CATEGORIAS)"
proof -
  have "post_productos u raw db =
           (Inr \<lparr>nombre = nombre p, precio = precio p, categorias = categorias p, id_out = u\<rparr>,
            db(u \<mapsto> \<lparr>nombre = nombre p, precio = precio p, categorias = categorias p,
                     id_out = u\<rparr>))"
    using assms crear_producto_validated [OF assms, of u db] by (simp add: post_productos_def)
  moreover have "put_productos x raw db =
           (Inr \<lparr>nombre = nombre p, precio = precio p, categorias = categorias p, id_out = x\<rparr>,
            db(x \<mapsto> \<lparr>nombre = nombre p, precio = precio p, categorias = categorias p,
                     id_out = x\<rparr>))" if "db x \<noteq> None"
    using assms actualizar_producto_validated [of raw p db x] that by (simp add: put_productos_def)
  moreover have "categorias p = normalizadas (c_categorias raw)"
    using assms by (simp add: ProductoIn_validate_Inr categorias_Inr)
  ultimately show ?thesis using validated_normal [OF assms] by blast
qed

theorem accepted_input_normalised_witness:
  "ProductoIn_validate \<lparr>c_nombre = ''Miel de abeja'', c_precio = Dec False 6 0,
      c_categorias = [''Organicos'', '' OFERTAS '']\<rparr>
     = Inr \<lparr>nombre = ''Miel de abeja'', precio = Dec False 600 (- 2),
            categorias = [''organicos'', ''ofertas'']\<rparr>
   \<and> post_productos 0x40008000000000000000 \<lparr>c_nombre = ''Miel de abeja'',
        c_precio = Dec False 6 0, c_categorias = [''Organicos'', '' OFERTAS '']\<rparr> Map.empty
       = (Inr \<lparr>nombre = ''Miel de abeja'', precio = Dec False 600 (- 2),
               categorias = [''organicos'', ''ofertas''], id_out = 0x40008000000000000000\<rparr>,
          [0x40008000000000000000 \<mapsto> \<lparr>nombre = ''Miel de abeja'',
               precio = Dec False 600 (- 2), categorias = [''organicos'', ''ofertas''],
               id_out = 0x40008000000000000000\<rparr>])
   \<and> [0x40008000000000000000 \<mapsto> \<lparr>nombre = ''Pan de maiz'', precio = Dec False 250 (- 2),
         categorias = [''granos''], id_out = 0x40008000000000000000 :: uuid\<rparr>]
       0x40008000000000000000 \<noteq> None
   \<and> put_productos 0x40008000000000000000 \<lparr>c_nombre = ''Miel de abeja'',
        c_precio = Dec False 6 0, c_categorias = [''Organicos'', '' OFERTAS '']\<rparr>
        [0x40008000000000000000 \<mapsto> \<lparr>nombre = ''Pan de maiz'', precio = Dec False 250 (- 2),
           categorias = [''granos''], id_out = 0x40008000000000000000\<rparr>]
       = (Inr \<lparr>nombre = ''Miel de abeja'', precio = Dec False 600 (- 2),
               categorias = [''organicos'', ''ofertas''], id_out = 0x40008000000000000000\<rparr>,
          [0x40008000000000000000 \<mapsto> \<lparr>nombre = ''Miel de abeja'',
               precio = Dec False 600 (- 2), categorias = [''organicos'', ''ofertas''],
               id_out = 0x40008000000000000000\<rparr>])
   \<and> normalizadas [''Organicos'', '' OFERTAS ''] = [''organicos'', ''ofertas'']
   \<and> distinct [''organicos'', ''ofertas'']
   \<and> lower ''organicos'' = ''organicos'' \<and> strip ''organicos'' = ''organicos''
   \<and> ''organicos'' \<in> CATALOGO_CATEGORIAS
   \<and> lower ''ofertas'' = ''ofertas'' \<and> strip ''ofertas'' = ''ofertas''
   \<and> ''ofertas'' \<in> CATALOGO_CATEGORIAS"
proof -
  have h: "ProductoIn_validate \<lparr>c_nombre = ''Miel de abeja'', c_precio = Dec False 6 0,
      c_categorias = [''Organicos'', '' OFERTAS '']\<rparr>
     = Inr \<lparr>nombre = ''Miel de abeja'', precio = Dec False 600 (- 2),
            categorias = [''organicos'', ''ofertas'']\<rparr>"
    by (simp add: validate_eval)
  show ?thesis
    using h accepted_input_normalised [OF h, of "0x40008000000000000000" Map.empty]
      accepted_input_normalised [OF h, of _
        "[0x40008000000000000000 \<mapsto> \<lparr>nombre = ''Pan de maiz'', precio = Dec False 250 (- 2),
           categorias = [''granos''], id_out = 0x40008000000000000000\<rparr>]"
        "0x40008000000000000000"]
    by (simp add: normalizadas_def str_eval CATALOGO_CATEGORIAS_def)
qed

section \<open>Properties of the store\<close>

text \<open>
  Claim C9: for an identifier \<open>x\<close> that is absent from the store, reading, replacing and
  deleting \<open>x\<close> each fail with "not found" (status 404) and leave the store as it is;
  deleting a present identifier succeeds and removes the entry; after a delete of \<open>x\<close>,
  whatever its outcome, \<open>x\<close> is absent and reading it fails with "not found".
\<close>

theorem not_found_lifecycle:
  "(db x = None \<longrightarrow>
      obtener_producto x db = (Inl HTTP_404, db)
      \<and> actualizar_producto x prd db = (Inl HTTP_404, db)
      \<and> eliminar_producto x db = (Inl HTTP_404, db))
   \<and> (db x = Some stored \<longrightarrow> eliminar_producto x db = (Inr (), db(x := None)))
   \<and> snd (eliminar_producto x db) x = None
   \<and> obtener_producto x (snd (eliminar_producto x db)) = (Inl HTTP_404, snd (eliminar_producto x db))"
  by (auto simp: obtener_producto_def actualizar_producto_def eliminar_producto_def dom_def)

theorem not_found_lifecycle_witness:
  "(Map.empty :: DB) 7 = None
   \<and> obtener_producto 7 Map.empty = (Inl HTTP_404, Map.empty)
   \<and> actualizar_producto 7 \<lparr>nombre = ''Miel de abeja'', precio = Dec False 600 (- 2),
        categorias = [''organicos'', ''ofertas'']\<rparr> Map.empty = (Inl HTTP_404, Map.empty)
   \<and> eliminar_producto 7 Map.empty = (Inl HTTP_404, Map.empty)
   \<and> [7 \<mapsto> \<lparr>nombre = ''Miel de abeja'', precio = Dec False 600 (- 2),
        categorias = [''organicos'', ''ofertas''], id_out = 7\<rparr>] 7
       = Some \<lparr>nombre = ''Miel de abeja'', precio = Dec False 600 (- 2),
        categorias = [''organicos'', ''ofertas''], id_out = 7\<rparr>
   \<and> eliminar_producto 7 [7 \<mapsto> \<lparr>nombre = ''Miel de abeja'', precio = Dec False 600 (- 2),
        categorias = [''organicos'', ''ofertas''], id_out = 7\<rparr>] = (Inr (), Map.empty)"
  using not_found_lifecycle [of Map.empty 7
      "\<lparr>nombre = ''Miel de abeja'', precio = Dec False 600 (- 2),
        categorias = [''organicos'', ''ofertas'']\<rparr>"]
    not_found_lifecycle [of "[7 \<mapsto> \<lparr>nombre = ''Miel de abeja'', precio = Dec False 600 (- 2),
        categorias = [''organicos'', ''ofertas''], id_out = 7\<rparr>]" 7 _
      "\<lparr>nombre = ''Miel de abeja'', precio = Dec False 600 (- 2),
        categorias = [''organicos'', ''ofertas''], id_out = 7\<rparr>"]
  by simp

text \<open>
  Claim C10: when the body of a create (POST) or of an update (PUT) fails validation, the
  request is answered with status 422 and the store is left exactly as it was.
\<close>

theorem validation_failure_keeps_store:
  "ProductoIn_validate body = Inl es \<Longrightarrow>
     post_productos u body db = (Inl (HTTP_422 es), db)
     \<and> put_productos x body db = (Inl (HTTP_422 es), db)"
  by (simp add: post_productos_def put_productos_def)

theorem validation_failure_keeps_store_witness:
  "ProductoIn_validate \<lparr>c_nombre = ''ab'', c_precio = Dec False 599 (- 2),
      c_categorias = [''granos'']\<rparr> = Inl [StringTooShort]
   \<and> post_productos 7 \<lparr>c_nombre = ''ab'', c_precio = Dec False 599 (- 2),
      c_categorias = [''granos'']\<rparr> Map.empty = (Inl (HTTP_422 [StringTooShort]), Map.empty)
   \<and> put_productos 7 \<lparr>c_nombre = ''ab'', c_precio = Dec False 599 (- 2),
      c_categorias = [''granos'']\<rparr> Map.empty = (Inl (HTTP_422 [StringTooShort]), Map.empty)"
proof -
  have h: "ProductoIn_validate \<lparr>c_nombre = ''ab'', c_precio = Dec False 599 (- 2),
      c_categorias = [''granos'']\<rparr> = Inl [StringTooShort]"
    by (simp add: validate_eval)
  show ?thesis
    using h validation_failure_keeps_store [OF h, of 7 Map.empty 7] by simp
qed

text \<open>
  Claim C7: for every validated product and every state of the store, creating the product
  succeeds, and reading the identifier of the created product straight afterwards succeeds
  and returns the very value that the creation returned, with the same identifier, name,
  price and categories.
\<close>

theorem refetch_after_insert:
  assumes "ProductoIn_validate raw = Inr p"
  shows "\<exists>out db'. crear_producto u p db = (Inr out, db')
           \<and> id_out out = u \<and> nombre out = nombre p \<and> precio out = precio p
           \<and> categorias out = categorias p
           \<and> obtener_producto (id_out out) db' = (Inr out, db')"
  using crear_producto_validated [OF assms, of u db]
  by (simp add: obtener_producto_def)

theorem refetch_after_insert_witness:
  "ProductoIn_validate \<lparr>c_nombre = ''Miel de abeja'', c_precio = Dec False 6 0,
      c_categorias = [''Organicos'', '' OFERTAS '']\<rparr>
     = Inr \<lparr>nombre = ''Miel de abeja'', precio = Dec False 600 (- 2),
            categorias = [''organicos'', ''ofertas'']\<rparr>
   \<and> (\<exists>out db'. crear_producto 0x40008000000000000000 \<lparr>nombre = ''Miel de abeja'', precio = Dec False 600 (- 2),
            categorias = [''organicos'', ''ofertas'']\<rparr> Map.empty = (Inr out, db')
        \<and> id_out out = 0x40008000000000000000 \<and> nombre out = ''Miel de abeja'' \<and> precio out = Dec False 600 (- 2)
        \<and> categorias out = [''organicos'', ''ofertas'']
        \<and> obtener_producto (id_out out) db' = (Inr out, db'))"
proof -
  have h: "ProductoIn_validate \<lparr>c_nombre = ''Miel de abeja'', c_precio = Dec False 6 0,
      c_categorias = [''Organicos'', '' OFERTAS '']\<rparr>
     = Inr \<lparr>nombre = ''Miel de abeja'', precio = Dec False 600 (- 2),
            categorias = [''organicos'', ''ofertas'']\<rparr>"
    by (simp add: validate_eval)
  show ?thesis
    using h refetch_after_insert [OF h, of "0x40008000000000000000" Map.empty] by simp
qed



end
